theory Spec2Isabelle
  imports Main
begin

section \<open>JavaScript values as the dashboard sees them\<close>

text \<open>
  \<^verbatim>\<open>type Report = any\<close>: a report is whatever the backend's JSON decodes to. The model
  is the JSON value tree plus \<open>Undefined\<close>, which is what reading a missing property
  gives. An object is the list of its own properties; a lookup takes the first binding
  of a key. Strings are \<open>string\<close> (characters are code units below 256).

  The component never computes with a number: it only tests one for truth and prints
  one in a template literal. A number is therefore carried as these two readings of
  the double the decoder produced: \<open>Num b s\<close> is a number whose ToBoolean is \<open>b\<close>
  (false for \<^verbatim>\<open>0\<close> and \<^verbatim>\<open>-0\<close>) and whose ToString is \<open>s\<close>, so that \<^verbatim>\<open>42\<close> is
  \<open>Num True ''42''\<close>, \<^verbatim>\<open>1.5\<close> is \<open>Num True ''1.5''\<close>, \<^verbatim>\<open>1e21\<close> is
  \<open>Num True ''1e+21''\<close> and \<^verbatim>\<open>0\<close> is \<open>Num False ''0''\<close>.
\<close>

datatype jsval =
    Undefined
  | Null
  | Bool bool
  | Num bool string
  | Str string
  | Arr "jsval list"
  | Obj "(string \<times> jsval) list"

datatype error =
    TypeError
  | Error string

text \<open>ToBoolean: \<^verbatim>\<open>undefined\<close>, \<^verbatim>\<open>null\<close>, \<^verbatim>\<open>false\<close>, \<^verbatim>\<open>0\<close> and \<^verbatim>\<open>""\<close> are falsy.\<close>

fun truthy :: "jsval \<Rightarrow> bool" where
  "truthy Undefined = False"
| "truthy Null = False"
| "truthy (Bool b) = b"
| "truthy (Num b s) = b"
| "truthy (Str s) = (s \<noteq> [])"
| "truthy (Arr xs) = True"
| "truthy (Obj kv) = True"

fun nullish :: "jsval \<Rightarrow> bool" where
  "nullish Undefined = True"
| "nullish Null = True"
| "nullish v = False"

text \<open>\<^verbatim>\<open>a ?? b\<close>\<close>

definition coalesce :: "jsval \<Rightarrow> jsval \<Rightarrow> jsval" where
  "coalesce a b = (if nullish a then b else a)"

text \<open>
  \<^verbatim>\<open>v?.k\<close>: \<^verbatim>\<open>undefined\<close> on a nullish base, the own property on an object, and
  \<^verbatim>\<open>undefined\<close> on every other value, since none of the keys this component reads
  (\<^verbatim>\<open>content\<close>, \<^verbatim>\<open>id\<close>, \<^verbatim>\<open>type\<close>, ...) is a property of a string, number, boolean or
  array. The same function stands for a plain \<^verbatim>\<open>v.k\<close> wherever the source has
  already established that \<open>v\<close> is not nullish.
\<close>

fun get_prop :: "jsval \<Rightarrow> string \<Rightarrow> jsval" where
  "get_prop (Obj kv) k = (case map_of kv k of Some v \<Rightarrow> v | None \<Rightarrow> Undefined)"
| "get_prop v k = Undefined"

text \<open>\<^verbatim>\<open>v.k\<close> with nothing in front of it: a nullish base throws a TypeError.\<close>

definition dot :: "jsval \<Rightarrow> string \<Rightarrow> error + jsval" where
  "dot v k = (if nullish v then Inl TypeError else Inr (get_prop v k))"

subsection \<open>ToString, as a template literal applies it\<close>

text \<open>
  An array is joined with commas, its nullish elements as empty strings. A decoded
  object has \<^verbatim>\<open>Object.prototype.toString\<close>, unless an own property \<^verbatim>\<open>toString\<close> (never
  callable in decoded JSON) shadows it: then the conversion throws a TypeError.
\<close>

fun to_str :: "jsval \<Rightarrow> error + string"
  and join_str :: "jsval list \<Rightarrow> error + string" where
  "to_str Undefined = Inr ''undefined''"
| "to_str Null = Inr ''null''"
| "to_str (Bool b) = Inr (if b then ''true'' else ''false'')"
| "to_str (Num b s) = Inr s"
| "to_str (Str s) = Inr s"
| "to_str (Arr xs) = join_str xs"
| "to_str (Obj kv) =
     (if map_of kv ''toString'' \<noteq> None then Inl TypeError else Inr ''[object Object]'')"
| "join_str [] = Inr []"
| "join_str [x] = (if nullish x then Inr [] else to_str x)"
| "join_str (x # y # ys) =
     (case (if nullish x then Inr [] else to_str x) of
        Inl e \<Rightarrow> Inl e
      | Inr a \<Rightarrow> (case join_str (y # ys) of Inl e \<Rightarrow> Inl e | Inr b \<Rightarrow> Inr (a @ '','' @ b)))"


subsection \<open>The regular expression \<^verbatim>\<open>/channel[:\/]?([\w-]+)/i\<close>\<close>

definition ascii_lower :: "char \<Rightarrow> char" where
  "ascii_lower c =
     (if (65::nat) \<le> of_char c \<and> of_char c \<le> (90::nat) then char_of (of_char c + (32::nat)) else c)"

text \<open>
  The class \<^verbatim>\<open>[\w-]\<close>: ASCII letters, digits, underscore and the dash. Without the
  \<^verbatim>\<open>u\<close> flag, ignoring case adds no character beyond ASCII to it.
\<close>

definition word_or_dash :: "char \<Rightarrow> bool" where
  "word_or_dash c =
     (let n = (of_char c :: nat)
      in (48 \<le> n \<and> n \<le> 57) \<or> (65 \<le> n \<and> n \<le> 90) \<or> (97 \<le> n \<and> n \<le> 122)
         \<or> c = CHR ''_'' \<or> c = CHR ''-'')"

text \<open>
  One attempt of the pattern at the start of \<open>s\<close>, giving capture group 1. The literal
  is compared ignoring ASCII case; the optional separator and the group are greedy.
  Backtracking changes nothing: a separator that was taken is not in the class, so
  giving it back lets the group fail at once, and a shorter group is never asked for
  since nothing follows the group.
\<close>

definition channel_match_at :: "string \<Rightarrow> string option" where
  "channel_match_at s =
     (if map ascii_lower (take 7 s) = ''channel'' then
        (let rest = drop 7 s;
             rest' = (case rest of
                        [] \<Rightarrow> rest
                      | c # cs \<Rightarrow> if c = CHR '':'' \<or> c = CHR ''/'' then cs else rest);
             grp = takeWhile word_or_dash rest'
         in if grp = [] then None else Some grp)
      else None)"

text \<open>
  \<^verbatim>\<open>target_display.match(re)\<close>: the leftmost position where an attempt succeeds;
  \<open>None\<close> is the \<^verbatim>\<open>null\<close> of no match, \<open>Some g\<close> carries \<^verbatim>\<open>m[1]\<close>.
\<close>

fun channel_match :: "string \<Rightarrow> string option" where
  "channel_match [] = channel_match_at []"
| "channel_match (c # cs) =
     (case channel_match_at (c # cs) of Some g \<Rightarrow> Some g | None \<Rightarrow> channel_match cs)"

section \<open>Action derivation\<close>

record action =
  label :: string
  enabled :: bool
  http_method :: "string option"
  path :: "string option"

definition disabled_action :: "string \<Rightarrow> action" where
  "disabled_action l = \<lparr>label = l, enabled = False, http_method = None, path = None\<rparr>"

definition isArray :: "jsval \<Rightarrow> bool" where
  "isArray v = (case v of Arr xs \<Rightarrow> True | _ \<Rightarrow> False)"

definition is_string :: "jsval \<Rightarrow> bool" where
  "is_string v = (case v of Str s \<Rightarrow> True | _ \<Rightarrow> False)"

text \<open>\<^verbatim>\<open>const msg = report?.content?.Message ?? report?.content?.message;\<close>\<close>

definition msg_of :: "jsval \<Rightarrow> jsval" where
  "msg_of report =
     coalesce (get_prop (get_prop report ''content'') ''Message'')
              (get_prop (get_prop report ''content'') ''message'')"

text \<open>\<^verbatim>\<open>const snapshot = report?.snapshots ?? report?.snapshot;\<close>\<close>

definition snapshot_of :: "jsval \<Rightarrow> jsval" where
  "snapshot_of report = coalesce (get_prop report ''snapshots'') (get_prop report ''snapshot'')"

text \<open>\<^verbatim>\<open>if (msg && typeof msg.id === "string") messageId = msg.id;\<close>\<close>

definition initial_messageId :: "jsval \<Rightarrow> jsval" where
  "initial_messageId report =
     (let msg = msg_of report
      in if truthy msg \<and> is_string (get_prop msg ''id'') then get_prop msg ''id'' else Undefined)"

text \<open>
  The first loop over the snapshot array, on the pair \<open>(channelId, messageId)\<close>:
  \<^verbatim>\<open>
  for (const s of snapshot) {
    if (s.content?.channel_id) channelId = s.content.channel_id;
    if (s.content?.message_id) messageId = messageId ?? s.content.message_id;
  }
  \<close>
  \<^verbatim>\<open>s.content\<close> is a plain property read, which throws on a \<^verbatim>\<open>null\<close> entry.
\<close>

fun scan_ids :: "jsval list \<Rightarrow> jsval \<times> jsval \<Rightarrow> error + jsval \<times> jsval" where
  "scan_ids [] st = Inr st"
| "scan_ids (s # ss) (channelId, messageId) =
     (case dot s ''content'' of
        Inl e \<Rightarrow> Inl e
      | Inr c \<Rightarrow>
          scan_ids ss
            (if truthy (get_prop c ''channel_id'') then get_prop c ''channel_id'' else channelId,
             if truthy (get_prop c ''message_id'') then coalesce messageId (get_prop c ''message_id'')
             else messageId))"

text \<open>
  \<^verbatim>\<open>
  if (!channelId && typeof report?.target_display === "string") {
    const m = report.target_display.match(/channel[:\/]?([\w-]+)/i);
    if (m) channelId = m[1];
  }
  \<close>
\<close>

definition channel_fallback :: "jsval \<Rightarrow> jsval \<Rightarrow> jsval" where
  "channel_fallback report channelId =
     (if \<not> truthy channelId then
        (case get_prop report ''target_display'' of
           Str td \<Rightarrow> (case channel_match td of Some g \<Rightarrow> Str g | None \<Rightarrow> channelId)
         | _ \<Rightarrow> channelId)
      else channelId)"

text \<open>The pair \<open>(channelId, messageId)\<close> as it stands when the first action is built.\<close>

definition resolve_ids :: "jsval \<Rightarrow> error + jsval \<times> jsval" where
  "resolve_ids report =
     (case (case snapshot_of report of
              Arr xs \<Rightarrow> scan_ids xs (Undefined, initial_messageId report)
            | _ \<Rightarrow> Inr (Undefined, initial_messageId report)) of
        Inl e \<Rightarrow> Inl e
      | Inr (channelId, messageId) \<Rightarrow> Inr (channel_fallback report channelId, messageId))"

definition remove_message_action :: "jsval \<Rightarrow> jsval \<Rightarrow> error + action" where
  "remove_message_action channelId messageId =
     (if truthy messageId \<and> truthy channelId then
        (case to_str channelId of
           Inl e \<Rightarrow> Inl e
         | Inr c \<Rightarrow>
             (case to_str messageId of
                Inl e \<Rightarrow> Inl e
              | Inr m \<Rightarrow>
                  Inr \<lparr>label = ''Remove Message'', enabled = True, http_method = Some ''DELETE'',
                       path = Some (''/channels/'' @ c @ ''/messages/'' @ m)\<rparr>))
      else Inr (disabled_action ''Remove Message''))"

text \<open>
  \<^verbatim>\<open>
  const srv = report?.content?.Server ?? report?.content?.server;
  const serverId = srv?.id ?? (report?.target_id && report.type === "server" ? report.target_id : undefined);
  \<close>
\<close>

definition serverId_of :: "jsval \<Rightarrow> jsval" where
  "serverId_of report =
     (let srv = coalesce (get_prop (get_prop report ''content'') ''Server'')
                         (get_prop (get_prop report ''content'') ''server'')
      in coalesce (get_prop srv ''id'')
           (if truthy (get_prop report ''target_id'') \<and> get_prop report ''type'' = Str ''server''
            then get_prop report ''target_id'' else Undefined))"

definition remove_server_action :: "jsval \<Rightarrow> error + action" where
  "remove_server_action serverId =
     (if truthy serverId then
        (case to_str serverId of
           Inl e \<Rightarrow> Inl e
         | Inr s \<Rightarrow>
             Inr \<lparr>label = ''Remove Server'', enabled = True, http_method = Some ''DELETE'',
                  path = Some (''/servers/'' @ s)\<rparr>)
      else Inr (disabled_action ''Remove Server''))"

text \<open>
  \<^verbatim>\<open>
  const user = report?.content?.User ?? report?.content?.user;
  const userId = user?.id ?? (report?.type === "user" ? report.target_id : undefined);
  \<close>
\<close>

definition userId_of :: "jsval \<Rightarrow> jsval" where
  "userId_of report =
     (let user = coalesce (get_prop (get_prop report ''content'') ''User'')
                          (get_prop (get_prop report ''content'') ''user'')
      in coalesce (get_prop user ''id'')
           (if get_prop report ''type'' = Str ''user'' then get_prop report ''target_id''
            else Undefined))"

text \<open>\<^verbatim>\<open>for (const s of snapshot) if (s.content?.server_id) ctxServerId = s.content.server_id;\<close>\<close>

fun scan_ctx :: "jsval list \<Rightarrow> jsval \<Rightarrow> error + jsval" where
  "scan_ctx [] ctxServerId = Inr ctxServerId"
| "scan_ctx (s # ss) ctxServerId =
     (case dot s ''content'' of
        Inl e \<Rightarrow> Inl e
      | Inr c \<Rightarrow>
          scan_ctx ss
            (if truthy (get_prop c ''server_id'') then get_prop c ''server_id'' else ctxServerId))"

definition ctxServerId_of :: "jsval \<Rightarrow> error + jsval" where
  "ctxServerId_of report =
     (case snapshot_of report of Arr xs \<Rightarrow> scan_ctx xs Undefined | _ \<Rightarrow> Inr Undefined)"

text \<open>
  The last two pushes. Both template literals convert the same two values, context
  server id first, so a conversion that throws does so in the first of them.
\<close>

definition kick_ban_actions :: "jsval \<Rightarrow> jsval \<Rightarrow> error + action list" where
  "kick_ban_actions userId ctxServerId =
     (if truthy userId \<and> truthy ctxServerId then
        (case to_str ctxServerId of
           Inl e \<Rightarrow> Inl e
         | Inr s \<Rightarrow>
             (case to_str userId of
                Inl e \<Rightarrow> Inl e
              | Inr u \<Rightarrow>
                  Inr [\<lparr>label = ''Kick from Server'', enabled = True, http_method = Some ''DELETE'',
                        path = Some (''/servers/'' @ s @ ''/members/'' @ u)\<rparr>,
                       \<lparr>label = ''Ban from Server'', enabled = True, http_method = Some ''PUT'',
                        path = Some (''/servers/'' @ s @ ''/bans/'' @ u)\<rparr>]))
      else Inr [disabled_action ''Kick from Server'', disabled_action ''Ban from Server''])"

text \<open>\<open>deriveActions\<close>: the array \<open>actions\<close> after the pushes, or the error thrown on the way.\<close>

definition deriveActions :: "jsval \<Rightarrow> error + action list" where
  "deriveActions report =
     (case resolve_ids report of
        Inl e \<Rightarrow> Inl e
      | Inr (channelId, messageId) \<Rightarrow>
     (case remove_message_action channelId messageId of
        Inl e \<Rightarrow> Inl e
      | Inr a1 \<Rightarrow>
     (case remove_server_action (serverId_of report) of
        Inl e \<Rightarrow> Inl e
      | Inr a2 \<Rightarrow>
     (case ctxServerId_of report of
        Inl e \<Rightarrow> Inl e
      | Inr ctxServerId \<Rightarrow>
     (case kick_ban_actions (userId_of report) ctxServerId of
        Inl e \<Rightarrow> Inl e
      | Inr kb \<Rightarrow> Inr ([a1, a2] @ kb))))))"

section \<open>Queries, mutations and the strike flow\<close>

text \<open>
  \<^verbatim>\<open>client().api\<close> is outside this component. A call is a \<open>request\<close>; the backend is
  the function that says how the awaited call ends: rejected with an error (\<open>Inl\<close>)
  or resolved with the decoded response (\<open>Inr\<close>). Each operation returns the requests
  it performed together with its own outcome.
\<close>

datatype request =
    GET string
  | DELETE string
  | PUT string jsval
  | POST string jsval

type_synonym api = "request \<Rightarrow> error + jsval"

text \<open>
  \<^verbatim>\<open>
  try { const res = await client().api.get("/safety/reports"); return (res ?? []) as Report[]; }
  catch (e) { return [] as Report[]; }
  \<close>
  The cast is erased at run time.
\<close>

definition reportsQuery :: "api \<Rightarrow> request list \<times> (error + jsval)" where
  "reportsQuery client =
     ([GET ''/safety/reports''],
      case client (GET ''/safety/reports'') of
        Inr res \<Rightarrow> Inr (coalesce res (Arr []))
      | Inl e \<Rightarrow> Inr (Arr []))"

definition strikesQuery :: "api \<Rightarrow> request list \<times> (error + jsval)" where
  "strikesQuery client =
     ([GET ''/safety/strikes''],
      case client (GET ''/safety/strikes'') of
        Inr res \<Rightarrow> Inr (coalesce res (Arr []))
      | Inl e \<Rightarrow> Inr (Arr []))"

text \<open>\<^verbatim>\<open>return client().api.post("/safety/strikes", data);\<close>\<close>

definition strikeMutation :: "api \<Rightarrow> jsval \<Rightarrow> request list \<times> (error + jsval)" where
  "strikeMutation client data =
     ([POST ''/safety/strikes'' data], client (POST ''/safety/strikes'' data))"

subsection \<open>\<^verbatim>\<open>String.prototype.toUpperCase\<close>\<close>

text \<open>
  The result is a list of code units, since three characters below 256 leave that
  range or grow: the micro sign becomes U+039C, the sharp s becomes \<^verbatim>\<open>SS\<close>, and
  y with diaeresis becomes U+0178. The division sign (247) has no upper case.
\<close>

definition upper_units :: "char \<Rightarrow> nat list" where
  "upper_units c =
     (let n = (of_char c :: nat)
      in if 97 \<le> n \<and> n \<le> 122 then [n - 32]
         else if n = 181 then [924]
         else if n = 223 then [83, 83]
         else if n = 255 then [376]
         else if 224 \<le> n \<and> n \<le> 254 \<and> n \<noteq> 247 then [n - 32]
         else [n])"

definition toUpperCase :: "string \<Rightarrow> nat list" where
  "toUpperCase s = concat (map upper_units s)"

definition units :: "string \<Rightarrow> nat list" where
  "units s = map of_char s"

text \<open>
  \<^verbatim>\<open>
  switch (data.method.toUpperCase()) {
    case "DELETE": return client().api.delete(data.path);
    case "PUT":    return client().api.put(data.path, data.body ?? {});
    case "POST":   return client().api.post(data.path, data.body ?? {});
    default:       throw new Error("Unsupported method");
  }
  \<close>
  The three arguments are the fields of \<^verbatim>\<open>data\<close>; an absent \<^verbatim>\<open>body\<close> is \<open>Undefined\<close>.
\<close>

definition actionMutation :: "api \<Rightarrow> string \<Rightarrow> string \<Rightarrow> jsval \<Rightarrow> request list \<times> (error + jsval)" where
  "actionMutation client data_method data_path data_body =
     (let m = toUpperCase data_method
      in if m = units ''DELETE'' then ([DELETE data_path], client (DELETE data_path))
         else if m = units ''PUT'' then
           ([PUT data_path (coalesce data_body (Obj []))],
            client (PUT data_path (coalesce data_body (Obj []))))
         else if m = units ''POST'' then
           ([POST data_path (coalesce data_body (Obj []))],
            client (POST data_path (coalesce data_body (Obj []))))
         else ([], Inl (Error ''Unsupported method'')))"

subsection \<open>Issuing a strike\<close>

text \<open>
  What \<open>issueStrikeFor\<close> does, in order: requests, notifications and refetches. The
  modal service is taken to provide \<^verbatim>\<open>showError\<close> and \<^verbatim>\<open>showSuccess\<close>, so each
  \<^verbatim>\<open>showError?.(...)\<close> is one notification.
\<close>

datatype event =
    Request request
  | ShowError error
  | ShowSuccess string
  | RefetchReports
  | RefetchStrikes

text \<open>\<^verbatim>\<open>const userId = (report?.content?.User?.id ?? report?.target_id)\<close>\<close>

definition strike_userId :: "jsval \<Rightarrow> jsval" where
  "strike_userId report =
     coalesce (get_prop (get_prop (get_prop report ''content'') ''User'') ''id'')
              (get_prop report ''target_id'')"

text \<open>
  \<^verbatim>\<open>
  if (!userId) return showError?.(new Error("No user id found for this report"));
  try {
    await strikeMutation.mutateAsync({ user_id: userId, reason: selectedReason() });
    showSuccess?.("Strike issued");
    reportsQuery.refetch();
    strikesQuery.refetch();
  } catch (e) { showError?.(e as Error); }
  \<close>
\<close>

definition issueStrikeFor :: "api \<Rightarrow> string \<Rightarrow> jsval \<Rightarrow> event list" where
  "issueStrikeFor client selectedReason report =
     (let userId = strike_userId report
      in if \<not> truthy userId then [ShowError (Error ''No user id found for this report'')]
         else
           (case strikeMutation client
                   (Obj [(''user_id'', userId), (''reason'', Str selectedReason)]) of
              (reqs, Inr res) \<Rightarrow>
                map Request reqs @ [ShowSuccess ''Strike issued'', RefetchReports, RefetchStrikes]
            | (reqs, Inl e) \<Rightarrow> map Request reqs @ [ShowError e]))"

definition is_request :: "event \<Rightarrow> bool" where
  "is_request ev = (case ev of Request r \<Rightarrow> True | _ \<Rightarrow> False)"

definition is_error_notification :: "event \<Rightarrow> bool" where
  "is_error_notification ev = (case ev of ShowError e \<Rightarrow> True | _ \<Rightarrow> False)"

section \<open>The expanded-JSON state\<close>

text \<open>
  \<^verbatim>\<open>const [expanded, setExpanded] = createSignal<string | null>(null);\<close> The click
  handler of a report's button is
  \<^verbatim>\<open>setExpanded(expanded() === report.id ? null : report.id)\<close>, and the report's JSON
  is shown \<^verbatim>\<open>when={expanded() === report.id}\<close>. Report ids are strings, as the
  signal's type has them.
\<close>

definition toggleExpanded :: "string option \<Rightarrow> string \<Rightarrow> string option" where
  "toggleExpanded expanded report_id = (if expanded = Some report_id then None else Some report_id)"

definition showsJSON :: "string option \<Rightarrow> string \<Rightarrow> bool" where
  "showsJSON expanded report_id = (expanded = Some report_id)"

text \<open>The state after a sequence of clicks, starting from the initial \<^verbatim>\<open>null\<close>.\<close>

definition expanded_after :: "string list \<Rightarrow> string option" where
  "expanded_after clicks = foldl toggleExpanded None clicks"

section \<open>Vocabulary of the properties\<close>

text \<open>What a snapshot entry \<open>s\<close> offers: \<^verbatim>\<open>s.content?.channel_id\<close> and its two siblings.\<close>

definition snap_channel_id :: "jsval \<Rightarrow> jsval" where
  "snap_channel_id s = get_prop (get_prop s ''content'') ''channel_id''"

definition snap_message_id :: "jsval \<Rightarrow> jsval" where
  "snap_message_id s = get_prop (get_prop s ''content'') ''message_id''"

definition snap_server_id :: "jsval \<Rightarrow> jsval" where
  "snap_server_id s = get_prop (get_prop s ''content'') ''server_id''"

text \<open>The entries the two loops visit: those of the snapshot array, none without an array.\<close>

definition snapshot_entries :: "jsval \<Rightarrow> jsval list" where
  "snapshot_entries report = (case snapshot_of report of Arr xs \<Rightarrow> xs | _ \<Rightarrow> [])"

text \<open>
  The channel id in the specification's words, for comparison with the loop: the value
  of the first entry whose \<^verbatim>\<open>content.channel_id\<close> is set.
\<close>

definition spec_first_channel_id :: "jsval list \<Rightarrow> jsval" where
  "spec_first_channel_id xs =
     (case filter (\<lambda>s. truthy (snap_channel_id s)) xs of
        [] \<Rightarrow> Undefined
      | s # rest \<Rightarrow> snap_channel_id s)"

text \<open>A value that is neither an array nor an object: every such value converts to a string.\<close>

definition scalar :: "jsval \<Rightarrow> bool" where
  "scalar v = (case v of Arr xs \<Rightarrow> False | Obj kv \<Rightarrow> False | _ \<Rightarrow> True)"

definition action_labels :: "string list" where
  "action_labels = [''Remove Message'', ''Remove Server'', ''Kick from Server'', ''Ban from Server'']"

text \<open>Equality of two strings up to the case of their ASCII letters.\<close>

definition same_ignoring_case :: "string \<Rightarrow> string \<Rightarrow> bool" where
  "same_ignoring_case a b = (map ascii_lower a = map ascii_lower b)"

text \<open>
  A literal of ASCII capitals in which no \<^verbatim>\<open>S\<close> follows an \<^verbatim>\<open>S\<close> (the upper case of a
  sharp s is \<^verbatim>\<open>SS\<close>): \<^verbatim>\<open>DELETE\<close>, \<^verbatim>\<open>PUT\<close> and \<^verbatim>\<open>POST\<close> are such literals.
\<close>

definition upper_literal :: "string \<Rightarrow> bool" where
  "upper_literal lit \<longleftrightarrow>
     (\<forall>c\<in>set lit. (65::nat) \<le> of_char c \<and> of_char c \<le> (90::nat))
     \<and> successively (\<lambda>a b. \<not> (a = CHR ''S'' \<and> b = CHR ''S'')) lit"

section \<open>Example reports\<close>

definition snap_c1 :: jsval where
  "snap_c1 = Obj [(''content'', Obj [(''channel_id'', Str ''c1'')])]"

definition snap_c2 :: jsval where
  "snap_c2 = Obj [(''content'', Obj [(''channel_id'', Str ''c2'')])]"

definition snap_s9 :: jsval where
  "snap_s9 = Obj [(''content'', Obj [(''server_id'', Str ''s9'')])]"

text \<open>\<^verbatim>\<open>{content: {Message: {id: "m1"}}, snapshots: [c1, c2]}\<close>\<close>

definition two_channel_report :: jsval where
  "two_channel_report =
     Obj [(''content'', Obj [(''Message'', Obj [(''id'', Str ''m1'')])]),
          (''snapshots'', Arr [snap_c1, snap_c2])]"

text \<open>\<^verbatim>\<open>{content: {Message: {id: "m1"}}, snapshots: [c1, c2, s9]}\<close>\<close>

definition three_snapshot_report :: jsval where
  "three_snapshot_report =
     Obj [(''content'', Obj [(''Message'', Obj [(''id'', Str ''m1'')])]),
          (''snapshots'', Arr [snap_c1, snap_c2, snap_s9])]"

text \<open>The actions of \<open>three_snapshot_report\<close>.\<close>

definition three_snapshot_actions :: "action list" where
  "three_snapshot_actions =
     [\<lparr>label = ''Remove Message'', enabled = True, http_method = Some ''DELETE'',
       path = Some ''/channels/c2/messages/m1''\<rparr>,
      disabled_action ''Remove Server'',
      disabled_action ''Kick from Server'',
      disabled_action ''Ban from Server'']"

definition snap_mA :: jsval where
  "snap_mA = Obj [(''content'', Obj [(''message_id'', Str ''mA''), (''server_id'', Str ''s1'')])]"

definition snap_mB :: jsval where
  "snap_mB = Obj [(''content'', Obj [(''message_id'', Str ''mB''), (''server_id'', Str ''s2'')])]"

text \<open>\<^verbatim>\<open>{snapshots: [c1, mA, mB]}\<close>\<close>

definition message_scan_report :: jsval where
  "message_scan_report = Obj [(''snapshots'', Arr [snap_c1, snap_mA, snap_mB])]"

text \<open>\<^verbatim>\<open>{content: {Message: {id: "m1"}}, snapshots: [c1, mA, mB]}\<close>\<close>

definition message_kept_report :: jsval where
  "message_kept_report =
     Obj [(''content'', Obj [(''Message'', Obj [(''id'', Str ''m1'')])]),
          (''snapshots'', Arr [snap_c1, snap_mA, snap_mB])]"

text \<open>
  \<^verbatim>\<open>{target_display: "reported in channel:abc123", content: {message: {id: "m7"}}, snapshot: [s9]}\<close>
\<close>

definition display_report :: jsval where
  "display_report =
     Obj [(''target_display'', Str ''reported in channel:abc123''),
          (''content'', Obj [(''message'', Obj [(''id'', Str ''m7'')])]),
          (''snapshot'', Arr [snap_s9])]"

text \<open>\<^verbatim>\<open>{snapshot: [mA, mB], type: "user", target_id: "u1"}\<close>, with the singular field.\<close>

definition kick_fields :: "(string \<times> jsval) list" where
  "kick_fields = [(''type'', Str ''user''), (''target_id'', Str ''u1'')]"

definition kick_report :: jsval where
  "kick_report = Obj ((''snapshot'', Arr [snap_mA, snap_mB]) # kick_fields)"

definition kick_actions :: "action list" where
  "kick_actions =
     [disabled_action ''Remove Message'',
      disabled_action ''Remove Server'',
      \<lparr>label = ''Kick from Server'', enabled = True, http_method = Some ''DELETE'',
       path = Some ''/servers/s2/members/u1''\<rparr>,
      \<lparr>label = ''Ban from Server'', enabled = True, http_method = Some ''PUT'',
       path = Some ''/servers/s2/bans/u1''\<rparr>]"

text \<open>
  Backends: one that answers every request with \<^verbatim>\<open>{}\<close>, one that rejects every
  request, one that answers with an error object where a list is expected, one that
  answers with a list, and one that answers with \<^verbatim>\<open>null\<close>.
\<close>

definition ok_client :: api where
  "ok_client r = Inr (Obj [])"

definition failing_client :: api where
  "failing_client r = Inl (Error ''Network error'')"

definition object_client :: api where
  "object_client r = Inr (Obj [(''type'', Str ''NotFound'')])"

definition list_client :: api where
  "list_client r = Inr (Arr [Obj [(''id'', Str ''r1'')]])"

definition null_client :: api where
  "null_client r = Inr Null"

text \<open>\<^verbatim>\<open>{snapshots: [null]}\<close>\<close>

definition null_entry_report :: jsval where
  "null_entry_report = Obj [(''snapshots'', Arr [Null])]"

section \<open>The snapshot loops\<close>

lemma scan_ids_step:
  "\<not> nullish s \<Longrightarrow>
   scan_ids (s # ss) (c, m) =
     scan_ids ss (if truthy (snap_channel_id s) then snap_channel_id s else c,
                  if truthy (snap_message_id s) then coalesce m (snap_message_id s) else m)"
  by (simp add: dot_def snap_channel_id_def snap_message_id_def)

lemma scan_ids_returns:
  "\<forall>s\<in>set xs. \<not> nullish s \<Longrightarrow> \<exists>c' m'. scan_ids xs (c, m) = Inr (c', m')"
proof (induction xs arbitrary: c m)
  case Nil
  then show ?case by simp
next
  case (Cons s ss)
  then show ?case by (simp add: scan_ids_step del: scan_ids.simps)
qed

lemma scan_ids_throws:
  "\<exists>s\<in>set xs. nullish s \<Longrightarrow> scan_ids xs st = Inl TypeError"
proof (induction xs arbitrary: st)
  case Nil
  then show ?case by simp
next
  case (Cons s ss)
  obtain c m where st: "st = (c, m)" by (cases st)
  show ?case
  proof (cases "nullish s")
    case True
    then show ?thesis by (simp add: st dot_def)
  next
    case False
    with Cons.prems have "\<exists>s\<in>set ss. nullish s" by simp
    from Cons.IH [OF this] False show ?thesis
      by (simp add: st scan_ids_step del: scan_ids.simps)
  qed
qed

lemma scan_ids_append:
  "scan_ids (xs @ ys) st =
     (case scan_ids xs st of Inl e \<Rightarrow> Inl e | Inr st' \<Rightarrow> scan_ids ys st')"
proof (induction xs arbitrary: st)
  case Nil
  then show ?case by simp
next
  case (Cons s ss)
  obtain c m where st: "st = (c, m)" by (cases st)
  show ?case by (simp add: st Cons.IH split: sum.splits)
qed

lemma scan_ids_channel_kept:
  "\<forall>s\<in>set xs. \<not> nullish s \<and> \<not> truthy (snap_channel_id s) \<Longrightarrow>
   \<exists>m'. scan_ids xs (c, m) = Inr (c, m')"
proof (induction xs arbitrary: m)
  case Nil
  then show ?case by simp
next
  case (Cons s ss)
  then show ?case by (simp add: scan_ids_step del: scan_ids.simps)
qed

lemma scan_ids_message_kept:
  "\<forall>s\<in>set xs. \<not> nullish s \<Longrightarrow> \<not> nullish m \<Longrightarrow> \<exists>c'. scan_ids xs (c, m) = Inr (c', m)"
proof (induction xs arbitrary: c)
  case Nil
  then show ?case by simp
next
  case (Cons s ss)
  then show ?case by (simp add: scan_ids_step coalesce_def del: scan_ids.simps)
qed

lemma scan_ids_message_skipped:
  "\<forall>s\<in>set xs. \<not> nullish s \<and> \<not> truthy (snap_message_id s) \<Longrightarrow>
   \<exists>c'. scan_ids xs (c, m) = Inr (c', m)"
proof (induction xs arbitrary: c)
  case Nil
  then show ?case by simp
next
  case (Cons s ss)
  then show ?case by (simp add: scan_ids_step del: scan_ids.simps)
qed

lemma truthy_not_nullish: "truthy v \<Longrightarrow> \<not> nullish v"
  by (cases v) simp_all

lemma scan_ctx_step:
  "\<not> nullish s \<Longrightarrow>
   scan_ctx (s # ss) x = scan_ctx ss (if truthy (snap_server_id s) then snap_server_id s else x)"
  by (simp add: dot_def snap_server_id_def)

lemma scan_ctx_append:
  "scan_ctx (xs @ ys) x =
     (case scan_ctx xs x of Inl e \<Rightarrow> Inl e | Inr x' \<Rightarrow> scan_ctx ys x')"
  by (induction xs arbitrary: x) (simp_all split: sum.splits)

lemma scan_ctx_returns:
  "\<forall>s\<in>set xs. \<not> nullish s \<Longrightarrow> \<exists>x'. scan_ctx xs x = Inr x'"
proof (induction xs arbitrary: x)
  case Nil
  then show ?case by simp
next
  case (Cons s ss)
  then show ?case by (simp add: scan_ctx_step del: scan_ctx.simps)
qed

lemma scan_ctx_kept:
  "\<forall>s\<in>set xs. \<not> nullish s \<and> \<not> truthy (snap_server_id s) \<Longrightarrow> scan_ctx xs x = Inr x"
proof (induction xs arbitrary: x)
  case Nil
  then show ?case by simp
next
  case (Cons s ss)
  then show ?case by (simp add: scan_ctx_step del: scan_ctx.simps)
qed

lemma resolve_ids_entries:
  "resolve_ids report =
     (case scan_ids (snapshot_entries report) (Undefined, initial_messageId report) of
        Inl e \<Rightarrow> Inl e
      | Inr (c, m) \<Rightarrow> Inr (channel_fallback report c, m))"
  by (simp add: resolve_ids_def snapshot_entries_def split: jsval.splits)

text \<open>The first loop is where a \<^verbatim>\<open>null\<close> entry of the snapshot array is met: it throws.\<close>

lemma resolve_ids_throws_iff:
  "(\<exists>e. resolve_ids report = Inl e) \<longleftrightarrow> (\<exists>s\<in>set (snapshot_entries report). nullish s)"
proof (cases "\<exists>s\<in>set (snapshot_entries report). nullish s")
  case True
  from scan_ids_throws [OF this] True show ?thesis
    by (simp add: resolve_ids_entries)
next
  case False
  then have "\<forall>s\<in>set (snapshot_entries report). \<not> nullish s" by simp
  from scan_ids_returns [OF this, of Undefined "initial_messageId report"] False
  show ?thesis
    by (auto simp: resolve_ids_entries)
qed

lemma deriveActions_null_entry:
  "\<exists>s\<in>set (snapshot_entries report). nullish s \<Longrightarrow> deriveActions report = Inl TypeError"
  by (simp add: deriveActions_def resolve_ids_entries scan_ids_throws)

lemma ctxServerId_of_entries:
  "ctxServerId_of report = scan_ctx (snapshot_entries report) Undefined"
  by (simp add: ctxServerId_of_def snapshot_entries_def split: jsval.splits)

lemma channel_fallback_truthy: "truthy c \<Longrightarrow> channel_fallback report c = c"
  by (simp add: channel_fallback_def)

section \<open>Which snapshot entry gives the channel id\<close>

text \<open>
  Claim C1 as the code has it: among the entries of the snapshot array, none of them
  \<^verbatim>\<open>null\<close>, the channel id is that of the LAST entry whose \<^verbatim>\<open>content.channel_id\<close> is
  truthy. An entry with a truthy channel id replaces whatever an earlier entry gave.
\<close>

theorem channel_id_last_snapshot_wins:
  assumes entries: "snapshot_entries report = pre @ e # post"
      and non_null: "\<forall>s\<in>set (pre @ e # post). \<not> nullish s"
      and set: "truthy (snap_channel_id e)"
      and later: "\<forall>s\<in>set post. \<not> truthy (snap_channel_id s)"
  shows "\<exists>messageId. resolve_ids report = Inr (snap_channel_id e, messageId)"
proof -
  let ?st0 = "(Undefined, initial_messageId report)"
  from non_null have "\<forall>s\<in>set pre. \<not> nullish s" by simp
  from scan_ids_returns [OF this]
  obtain c1 m1 where pre: "scan_ids pre ?st0 = Inr (c1, m1)" by blast
  from non_null have e: "\<not> nullish e" by simp
  from non_null later have "\<forall>s\<in>set post. \<not> nullish s \<and> \<not> truthy (snap_channel_id s)" by simp
  from scan_ids_channel_kept [OF this]
  obtain m3 where post:
    "scan_ids post (snap_channel_id e,
        if truthy (snap_message_id e) then coalesce m1 (snap_message_id e) else m1)
       = Inr (snap_channel_id e, m3)"
    by blast
  have "scan_ids (pre @ e # post) ?st0 = Inr (snap_channel_id e, m3)"
    using pre post e set by (simp add: scan_ids_append scan_ids_step del: scan_ids.simps)
  then show ?thesis
    using set by (simp add: resolve_ids_entries entries channel_fallback_truthy)
qed


theorem channel_id_last_snapshot_wins_witness:
  "snapshot_entries three_snapshot_report = [snap_c1] @ snap_c2 # [snap_s9]
   \<and> \<not> nullish snap_c1 \<and> \<not> nullish snap_c2 \<and> \<not> nullish snap_s9
   \<and> truthy (snap_channel_id snap_c2) \<and> \<not> truthy (snap_channel_id snap_s9)
   \<and> snap_channel_id snap_c2 = Str ''c2''
   \<and> (\<exists>messageId. resolve_ids three_snapshot_report = Inr (Str ''c2'', messageId))"
proof -
  have a: "snapshot_entries three_snapshot_report = [snap_c1] @ snap_c2 # [snap_s9]"
    by (simp add: snapshot_entries_def snapshot_of_def coalesce_def three_snapshot_report_def)
  have b: "\<forall>s\<in>set ([snap_c1] @ snap_c2 # [snap_s9]). \<not> nullish s"
    by (simp add: snap_c1_def snap_c2_def snap_s9_def)
  have c: "truthy (snap_channel_id snap_c2)"
    by (simp add: snap_channel_id_def snap_c2_def)
  have d: "\<forall>s\<in>set [snap_s9]. \<not> truthy (snap_channel_id s)"
    by (simp add: snap_channel_id_def snap_s9_def)
  have e: "snap_channel_id snap_c2 = Str ''c2''"
    by (simp add: snap_channel_id_def snap_c2_def)
  from channel_id_last_snapshot_wins [OF a b c d] a b c d e show ?thesis
    by simp
qed

text \<open>
  Claim C1 as stated fails on a report with two snapshot entries: the first entry
  whose channel id is set says \<^verbatim>\<open>c1\<close>, and the derived path deletes from \<^verbatim>\<open>c2\<close>.
\<close>

theorem channel_id_first_snapshot_counterexample:
  "snapshot_of two_channel_report = Arr [snap_c1, snap_c2]
   \<and> spec_first_channel_id [snap_c1, snap_c2] = Str ''c1''
   \<and> resolve_ids two_channel_report = Inr (Str ''c2'', Str ''m1'')
   \<and> deriveActions two_channel_report =
       Inr [\<lparr>label = ''Remove Message'', enabled = True, http_method = Some ''DELETE'',
             path = Some ''/channels/c2/messages/m1''\<rparr>,
            disabled_action ''Remove Server'',
            disabled_action ''Kick from Server'',
            disabled_action ''Ban from Server'']"
  by (simp add: deriveActions_def resolve_ids_def snapshot_of_def coalesce_def dot_def
      initial_messageId_def msg_of_def channel_fallback_def remove_message_action_def
      disabled_action_def serverId_of_def remove_server_action_def ctxServerId_of_def
      kick_ban_actions_def userId_of_def is_string_def snap_c1_def snap_c2_def
      two_channel_report_def snap_channel_id_def spec_first_channel_id_def)

section \<open>The list of actions\<close>

lemma to_str_scalar: "scalar v \<Longrightarrow> \<exists>s. to_str v = Inr s"
  by (cases v) (simp_all add: scalar_def)

lemma remove_message_action_label:
  "remove_message_action c m = Inr a \<Longrightarrow> label a = ''Remove Message''"
  by (auto simp: remove_message_action_def disabled_action_def split: if_splits sum.splits)

lemma remove_server_action_label:
  "remove_server_action s = Inr a \<Longrightarrow> label a = ''Remove Server''"
  by (auto simp: remove_server_action_def disabled_action_def split: if_splits sum.splits)

lemma kick_ban_actions_labels:
  "kick_ban_actions u x = Inr kb \<Longrightarrow> map label kb = [''Kick from Server'', ''Ban from Server'']"
  by (auto simp: kick_ban_actions_def disabled_action_def split: if_splits sum.splits)

lemma deriveActions_Inr:
  "deriveActions report = Inr acts \<Longrightarrow>
   \<exists>c m a1 a2 x kb. resolve_ids report = Inr (c, m) \<and> remove_message_action c m = Inr a1
     \<and> remove_server_action (serverId_of report) = Inr a2
     \<and> ctxServerId_of report = Inr x
     \<and> kick_ban_actions (userId_of report) x = Inr kb \<and> acts = [a1, a2] @ kb"
  by (auto simp: deriveActions_def split: sum.splits prod.splits)

lemma scan_ids_scalar:
  "\<forall>s\<in>set xs. \<not> nullish s \<and> scalar (snap_channel_id s) \<and> scalar (snap_message_id s) \<Longrightarrow>
   scalar c \<Longrightarrow> scalar m \<Longrightarrow>
   \<exists>c' m'. scan_ids xs (c, m) = Inr (c', m') \<and> scalar c' \<and> scalar m'"
proof (induction xs arbitrary: c m)
  case Nil
  then show ?case by simp
next
  case (Cons s ss)
  then show ?case by (simp add: scan_ids_step coalesce_def del: scan_ids.simps)
qed

lemma scan_ctx_scalar:
  "\<forall>s\<in>set xs. \<not> nullish s \<and> scalar (snap_server_id s) \<Longrightarrow> scalar x \<Longrightarrow>
   \<exists>x'. scan_ctx xs x = Inr x' \<and> scalar x'"
proof (induction xs arbitrary: x)
  case Nil
  then show ?case by simp
next
  case (Cons s ss)
  then show ?case by (simp add: scan_ctx_step del: scan_ctx.simps)
qed

lemma initial_messageId_scalar: "scalar (initial_messageId report)"
  by (simp add: initial_messageId_def Let_def scalar_def is_string_def split: jsval.splits)

lemma channel_fallback_scalar: "scalar c \<Longrightarrow> scalar (channel_fallback report c)"
  by (simp add: channel_fallback_def scalar_def split: jsval.splits option.splits)

lemma remove_message_action_returns:
  "scalar c \<Longrightarrow> scalar m \<Longrightarrow> \<exists>a. remove_message_action c m = Inr a"
  using to_str_scalar [of c] to_str_scalar [of m]
  by (auto simp: remove_message_action_def)

lemma remove_server_action_returns:
  "scalar s \<Longrightarrow> \<exists>a. remove_server_action s = Inr a"
  using to_str_scalar [of s] by (auto simp: remove_server_action_def)

lemma kick_ban_actions_returns:
  "scalar u \<Longrightarrow> scalar x \<Longrightarrow> \<exists>kb. kick_ban_actions u x = Inr kb"
  using to_str_scalar [of u] to_str_scalar [of x]
  by (auto simp: kick_ban_actions_def)

lemma deriveActions_returns:
  assumes entries: "\<forall>s\<in>set (snapshot_entries report).
            \<not> nullish s \<and> scalar (snap_channel_id s) \<and> scalar (snap_message_id s)
            \<and> scalar (snap_server_id s)"
      and srv: "scalar (serverId_of report)"
      and usr: "scalar (userId_of report)"
  shows "\<exists>acts. deriveActions report = Inr acts"
proof -
  have u: "scalar Undefined" by (simp add: scalar_def)
  from entries have e1: "\<forall>s\<in>set (snapshot_entries report).
      \<not> nullish s \<and> scalar (snap_channel_id s) \<and> scalar (snap_message_id s)" by simp
  from scan_ids_scalar [OF e1 u initial_messageId_scalar]
  obtain c m where scan: "scan_ids (snapshot_entries report) (Undefined, initial_messageId report) = Inr (c, m)"
    and c: "scalar c" and m: "scalar m"
    by blast
  have ids: "resolve_ids report = Inr (channel_fallback report c, m)"
    by (simp add: resolve_ids_entries scan)
  from remove_message_action_returns [OF channel_fallback_scalar [OF c] m]
  obtain a1 where a1: "remove_message_action (channel_fallback report c) m = Inr a1" by blast
  from remove_server_action_returns [OF srv]
  obtain a2 where a2: "remove_server_action (serverId_of report) = Inr a2" by blast
  from entries have e2: "\<forall>s\<in>set (snapshot_entries report). \<not> nullish s \<and> scalar (snap_server_id s)"
    by simp
  from scan_ctx_scalar [OF e2 u]
  obtain x where x: "ctxServerId_of report = Inr x" and sx: "scalar x"
    unfolding ctxServerId_of_entries by blast
  from kick_ban_actions_returns [OF usr sx]
  obtain kb where kb: "kick_ban_actions (userId_of report) x = Inr kb" by blast
  show ?thesis by (simp add: deriveActions_def ids a1 a2 x kb)
qed

text \<open>
  Claim C2 as the code has it: whenever \<open>deriveActions\<close> returns, the list holds
  exactly 4 actions, labelled Remove Message, Remove Server, Kick from Server and Ban
  from Server in this order, so none is ever left out. It does return on every report
  whose snapshot entries are not \<^verbatim>\<open>null\<close> and whose ids are neither arrays nor objects.
\<close>

theorem deriveActions_four_actions:
  "(deriveActions report = Inr acts \<longrightarrow> map label acts = action_labels \<and> length acts = 4)
   \<and> ((\<forall>s\<in>set (snapshot_entries report).
          \<not> nullish s \<and> scalar (snap_channel_id s) \<and> scalar (snap_message_id s)
          \<and> scalar (snap_server_id s))
        \<and> scalar (serverId_of report) \<and> scalar (userId_of report)
      \<longrightarrow> (\<exists>acts. deriveActions report = Inr acts))"
proof (intro conjI impI)
  assume "deriveActions report = Inr acts"
  from deriveActions_Inr [OF this]
  obtain c m a1 a2 x kb where a1: "remove_message_action c m = Inr a1"
    and a2: "remove_server_action (serverId_of report) = Inr a2"
    and kb: "kick_ban_actions (userId_of report) x = Inr kb"
    and acts: "acts = [a1, a2] @ kb"
    by blast
  from remove_message_action_label [OF a1] remove_server_action_label [OF a2]
    kick_ban_actions_labels [OF kb]
  show labels: "map label acts = action_labels"
    by (simp add: acts action_labels_def)
  from arg_cong [OF labels, of length] show "length acts = 4"
    by (simp add: action_labels_def)
next
  assume "(\<forall>s\<in>set (snapshot_entries report).
          \<not> nullish s \<and> scalar (snap_channel_id s) \<and> scalar (snap_message_id s)
          \<and> scalar (snap_server_id s))
        \<and> scalar (serverId_of report) \<and> scalar (userId_of report)"
  then show "\<exists>acts. deriveActions report = Inr acts"
    using deriveActions_returns [of report] by blast
qed

theorem deriveActions_four_actions_witness:
  "deriveActions three_snapshot_report = Inr three_snapshot_actions
   \<and> map label three_snapshot_actions = action_labels
   \<and> length three_snapshot_actions = 4"
proof -
  have "deriveActions three_snapshot_report = Inr three_snapshot_actions"
    by (simp add: deriveActions_def resolve_ids_def snapshot_of_def coalesce_def dot_def
        initial_messageId_def msg_of_def channel_fallback_def remove_message_action_def
        serverId_of_def remove_server_action_def ctxServerId_of_def
        kick_ban_actions_def userId_of_def is_string_def snap_c1_def snap_c2_def snap_s9_def
        three_snapshot_report_def three_snapshot_actions_def)
  with deriveActions_four_actions [of three_snapshot_report three_snapshot_actions]
  show ?thesis by simp
qed

text \<open>
  Claim C2 as stated fails on the empty report \<^verbatim>\<open>{}\<close>: four actions come back, not five.
\<close>

theorem deriveActions_five_actions_counterexample:
  "deriveActions (Obj []) =
     Inr [disabled_action ''Remove Message'', disabled_action ''Remove Server'',
          disabled_action ''Kick from Server'', disabled_action ''Ban from Server'']
   \<and> length [disabled_action ''Remove Message'', disabled_action ''Remove Server'',
          disabled_action ''Kick from Server'', disabled_action ''Ban from Server''] \<noteq> 5"
  by (simp add: deriveActions_def resolve_ids_def snapshot_of_def coalesce_def
      initial_messageId_def msg_of_def channel_fallback_def remove_message_action_def
      serverId_of_def remove_server_action_def ctxServerId_of_def
      kick_ban_actions_def userId_of_def)

section \<open>First message id, last context server\<close>

text \<open>
  Claim C3: on a report whose snapshot entries are not \<^verbatim>\<open>null\<close>, a message id taken
  from \<^verbatim>\<open>content.Message.id\<close> is never overridden by the snapshots; without one, the
  message id is that of the FIRST entry whose \<^verbatim>\<open>content.message_id\<close> is truthy,
  whatever later entries hold; and the context server id is that of the LAST entry
  whose \<^verbatim>\<open>content.server_id\<close> is truthy.
\<close>

theorem message_first_server_last:
  assumes non_null: "\<forall>s\<in>set (snapshot_entries report). \<not> nullish s"
  shows "(truthy (msg_of report) \<and> is_string (get_prop (msg_of report) ''id'')
            \<longrightarrow> (\<exists>channelId. resolve_ids report = Inr (channelId, get_prop (msg_of report) ''id'')))
       \<and> (\<not> (truthy (msg_of report) \<and> is_string (get_prop (msg_of report) ''id''))
            \<and> snapshot_entries report = pre @ e # post
            \<and> (\<forall>s\<in>set pre. \<not> truthy (snap_message_id s)) \<and> truthy (snap_message_id e)
            \<longrightarrow> (\<exists>channelId. resolve_ids report = Inr (channelId, snap_message_id e)))
       \<and> (snapshot_entries report = pre' @ e' # post'
            \<and> truthy (snap_server_id e') \<and> (\<forall>s\<in>set post'. \<not> truthy (snap_server_id s))
            \<longrightarrow> ctxServerId_of report = Inr (snap_server_id e'))"
proof (intro conjI impI)
  assume "truthy (msg_of report) \<and> is_string (get_prop (msg_of report) ''id'')"
  then have init: "initial_messageId report = get_prop (msg_of report) ''id''"
    and "\<not> nullish (get_prop (msg_of report) ''id'')"
    by (auto simp: initial_messageId_def is_string_def split: jsval.splits)
  from scan_ids_message_kept [OF non_null this(2), of Undefined]
  show "\<exists>channelId. resolve_ids report = Inr (channelId, get_prop (msg_of report) ''id'')"
    by (auto simp: resolve_ids_entries init)
next
  assume a: "\<not> (truthy (msg_of report) \<and> is_string (get_prop (msg_of report) ''id''))
            \<and> snapshot_entries report = pre @ e # post
            \<and> (\<forall>s\<in>set pre. \<not> truthy (snap_message_id s)) \<and> truthy (snap_message_id e)"
  then have init: "initial_messageId report = Undefined"
    by (auto simp: initial_messageId_def)
  from a have entries: "snapshot_entries report = pre @ e # post" by simp
  from non_null a have "\<forall>s\<in>set pre. \<not> nullish s \<and> \<not> truthy (snap_message_id s)" by simp
  from scan_ids_message_skipped [OF this, of Undefined Undefined]
  obtain c1 where pre: "scan_ids pre (Undefined, Undefined) = Inr (c1, Undefined)" by blast
  from non_null entries have e: "\<not> nullish e" and post: "\<forall>s\<in>set post. \<not> nullish s" by simp_all
  from a have found: "truthy (snap_message_id e)" by simp
  from scan_ids_message_kept [OF post truthy_not_nullish [OF found]]
  obtain c3 where
    "scan_ids post (if truthy (snap_channel_id e) then snap_channel_id e else c1, snap_message_id e)
       = Inr (c3, snap_message_id e)"
    by blast
  with pre e found
  have "scan_ids (pre @ e # post) (Undefined, Undefined) = Inr (c3, snap_message_id e)"
    by (simp add: scan_ids_append scan_ids_step coalesce_def del: scan_ids.simps)
  then show "\<exists>channelId. resolve_ids report = Inr (channelId, snap_message_id e)"
    by (simp add: resolve_ids_entries entries init)
next
  assume a: "snapshot_entries report = pre' @ e' # post'
            \<and> truthy (snap_server_id e') \<and> (\<forall>s\<in>set post'. \<not> truthy (snap_server_id s))"
  then have entries: "snapshot_entries report = pre' @ e' # post'" by simp
  from non_null entries have "\<forall>s\<in>set pre'. \<not> nullish s" by simp
  from scan_ctx_returns [OF this]
  obtain x1 where pre: "scan_ctx pre' Undefined = Inr x1" by blast
  from non_null entries have e: "\<not> nullish e'" by simp
  from non_null entries a have "\<forall>s\<in>set post'. \<not> nullish s \<and> \<not> truthy (snap_server_id s)" by simp
  from scan_ctx_kept [OF this] have "scan_ctx post' (snap_server_id e') = Inr (snap_server_id e')" .
  with pre e a show "ctxServerId_of report = Inr (snap_server_id e')"
    by (simp add: ctxServerId_of_entries entries scan_ctx_append scan_ctx_step del: scan_ctx.simps)
qed

theorem message_first_server_last_witness:
  "truthy (msg_of message_kept_report)
   \<and> is_string (get_prop (msg_of message_kept_report) ''id'')
   \<and> (\<exists>channelId. resolve_ids message_kept_report = Inr (channelId, Str ''m1''))
   \<and> snapshot_entries message_scan_report = [snap_c1] @ snap_mA # [snap_mB]
   \<and> \<not> truthy (snap_message_id snap_c1) \<and> snap_message_id snap_mA = Str ''mA''
   \<and> truthy (snap_message_id snap_mB)
   \<and> (\<exists>channelId. resolve_ids message_scan_report = Inr (channelId, Str ''mA''))
   \<and> truthy (snap_server_id snap_mA) \<and> snap_server_id snap_mB = Str ''s2''
   \<and> ctxServerId_of message_scan_report = Inr (Str ''s2'')"
proof -
  have kept: "snapshot_entries message_kept_report = [snap_c1, snap_mA, snap_mB]"
    by (simp add: snapshot_entries_def snapshot_of_def coalesce_def message_kept_report_def)
  have scan: "snapshot_entries message_scan_report = [snap_c1] @ snap_mA # [snap_mB]"
    by (simp add: snapshot_entries_def snapshot_of_def coalesce_def message_scan_report_def)
  have scan': "snapshot_entries message_scan_report = [snap_c1, snap_mA] @ snap_mB # []"
    by (simp add: scan)
  have nn: "\<not> nullish snap_c1" "\<not> nullish snap_mA" "\<not> nullish snap_mB"
    by (simp_all add: snap_c1_def snap_mA_def snap_mB_def)
  have msg: "msg_of message_kept_report = Obj [(''id'', Str ''m1'')]"
    "msg_of message_scan_report = Undefined"
    by (simp_all add: msg_of_def coalesce_def message_kept_report_def message_scan_report_def)
  have ids: "snap_message_id snap_c1 = Undefined" "snap_message_id snap_mA = Str ''mA''"
    "snap_message_id snap_mB = Str ''mB''" "snap_server_id snap_mA = Str ''s1''"
    "snap_server_id snap_mB = Str ''s2''"
    by (simp_all add: snap_message_id_def snap_server_id_def snap_c1_def snap_mA_def snap_mB_def)
  have "\<forall>s\<in>set (snapshot_entries message_kept_report). \<not> nullish s"
    by (simp add: kept nn)
  from message_first_server_last [OF this]
  have first: "\<exists>channelId. resolve_ids message_kept_report = Inr (channelId, Str ''m1'')"
    by (simp add: msg is_string_def)
  have all: "\<forall>s\<in>set (snapshot_entries message_scan_report). \<not> nullish s"
    by (simp add: scan nn)
  from message_first_server_last
    [OF all, of "[snap_c1]" snap_mA "[snap_mB]" "[snap_c1, snap_mA]" snap_mB "[]"]
  have "(\<exists>channelId. resolve_ids message_scan_report = Inr (channelId, Str ''mA''))
      \<and> ctxServerId_of message_scan_report = Inr (Str ''s2'')"
    by (simp add: msg ids scan)
  with first scan show ?thesis
    by (simp add: msg ids is_string_def)
qed

section \<open>The Remove Message action\<close>

text \<open>
  What the first action is whenever \<open>deriveActions\<close> returns: the only action labelled
  Remove Message, enabled exactly when both the message id and the channel id are
  truthy; enabled, it is a DELETE of \<^verbatim>\<open>/channels/{channelId}/messages/{messageId}\<close>,
  the two ids being printed as a template literal prints them, which for string ids is
  the ids themselves; disabled, it has neither path nor method.
\<close>

theorem remove_message_when_returned:
  assumes "deriveActions report = Inr acts"
  shows "\<exists>channelId messageId a rest.
           resolve_ids report = Inr (channelId, messageId) \<and> acts = a # rest
           \<and> label a = ''Remove Message''
           \<and> (\<forall>b\<in>set rest. label b \<noteq> ''Remove Message'')
           \<and> (enabled a \<longleftrightarrow> truthy messageId \<and> truthy channelId)
           \<and> (enabled a \<longrightarrow>
                 http_method a = Some ''DELETE''
                 \<and> (\<exists>c m. to_str channelId = Inr c \<and> to_str messageId = Inr m
                       \<and> path a = Some (''/channels/'' @ c @ ''/messages/'' @ m)))
           \<and> (\<forall>c m. channelId = Str c \<and> messageId = Str m \<and> c \<noteq> [] \<and> m \<noteq> [] \<longrightarrow>
                 a = \<lparr>label = ''Remove Message'', enabled = True, http_method = Some ''DELETE'',
                      path = Some (''/channels/'' @ c @ ''/messages/'' @ m)\<rparr>)
           \<and> (\<not> enabled a \<longrightarrow> a = disabled_action ''Remove Message'')"
proof -
  from deriveActions_Inr [OF assms]
  obtain c m a1 a2 x kb where ids: "resolve_ids report = Inr (c, m)"
    and a1: "remove_message_action c m = Inr a1"
    and a2: "remove_server_action (serverId_of report) = Inr a2"
    and kb: "kick_ban_actions (userId_of report) x = Inr kb"
    and acts: "acts = a1 # a2 # kb"
    by auto
  from remove_server_action_label [OF a2] kick_ban_actions_labels [OF kb]
  have others: "\<forall>b\<in>set (a2 # kb). label b \<noteq> ''Remove Message''"
    by (auto simp: map_eq_Cons_conv)
  from a1 have first: "label a1 = ''Remove Message''
      \<and> (enabled a1 \<longleftrightarrow> truthy m \<and> truthy c)
      \<and> (enabled a1 \<longrightarrow> http_method a1 = Some ''DELETE''
            \<and> (\<exists>cs ms. to_str c = Inr cs \<and> to_str m = Inr ms
                  \<and> path a1 = Some (''/channels/'' @ cs @ ''/messages/'' @ ms)))
      \<and> (\<not> enabled a1 \<longrightarrow> a1 = disabled_action ''Remove Message'')"
    by (auto simp: remove_message_action_def disabled_action_def split: if_splits sum.splits)
  from a1 have strings: "\<forall>cs ms. c = Str cs \<and> m = Str ms \<and> cs \<noteq> [] \<and> ms \<noteq> [] \<longrightarrow>
      a1 = \<lparr>label = ''Remove Message'', enabled = True, http_method = Some ''DELETE'',
            path = Some (''/channels/'' @ cs @ ''/messages/'' @ ms)\<rparr>"
    by (auto simp: remove_message_action_def)
  from ids acts others first strings show ?thesis by blast
qed

theorem remove_message_when_returned_example:
  "deriveActions three_snapshot_report = Inr three_snapshot_actions
   \<and> resolve_ids three_snapshot_report = Inr (Str ''c2'', Str ''m1'')
   \<and> enabled (hd three_snapshot_actions)
   \<and> path (hd three_snapshot_actions) = Some ''/channels/c2/messages/m1''
   \<and> deriveActions (Obj []) =
       Inr [disabled_action ''Remove Message'', disabled_action ''Remove Server'',
            disabled_action ''Kick from Server'', disabled_action ''Ban from Server'']
   \<and> path (disabled_action ''Remove Message'') = None"
proof -
  have run: "deriveActions three_snapshot_report = Inr three_snapshot_actions"
    by (simp add: deriveActions_def resolve_ids_def snapshot_of_def coalesce_def dot_def
        initial_messageId_def msg_of_def channel_fallback_def remove_message_action_def
        serverId_of_def remove_server_action_def ctxServerId_of_def
        kick_ban_actions_def userId_of_def is_string_def snap_c1_def snap_c2_def snap_s9_def
        three_snapshot_report_def three_snapshot_actions_def)
  have ids: "resolve_ids three_snapshot_report = Inr (Str ''c2'', Str ''m1'')"
    by (simp add: resolve_ids_def snapshot_of_def coalesce_def dot_def
        initial_messageId_def msg_of_def channel_fallback_def is_string_def
        snap_c1_def snap_c2_def snap_s9_def three_snapshot_report_def)
  have empty: "deriveActions (Obj []) =
       Inr [disabled_action ''Remove Message'', disabled_action ''Remove Server'',
            disabled_action ''Kick from Server'', disabled_action ''Ban from Server'']"
    by (simp add: deriveActions_def resolve_ids_def snapshot_of_def coalesce_def
        initial_messageId_def msg_of_def channel_fallback_def remove_message_action_def
        serverId_of_def remove_server_action_def ctxServerId_of_def
        kick_ban_actions_def userId_of_def)
  from remove_message_when_returned [OF run] remove_message_when_returned [OF empty] run ids empty
  show ?thesis
    by (simp add: three_snapshot_actions_def disabled_action_def)
qed

text \<open>
  Claim C4 says that for every report the Remove Message action is in the list, enabled
  with its path when both ids resolved and disabled without a path otherwise. The code
  breaks this on a report whose snapshot array holds a \<^verbatim>\<open>null\<close> entry: on
  \<^verbatim>\<open>{snapshots: [null]}\<close> no id resolves, so the claim has the action present and
  disabled, but \<^verbatim>\<open>s.content\<close> throws a TypeError in the first loop and no action is
  produced at all. The same report with the entry removed gives the disabled action.
\<close>

theorem remove_message_null_entry_throws:
  "snapshot_of null_entry_report = Arr [Null]
   \<and> deriveActions null_entry_report = Inl TypeError
   \<and> deriveActions (Obj [(''snapshots'', Arr [])]) =
       Inr [disabled_action ''Remove Message'', disabled_action ''Remove Server'',
            disabled_action ''Kick from Server'', disabled_action ''Ban from Server'']"
  by (simp add: deriveActions_def resolve_ids_def snapshot_of_def coalesce_def dot_def
      initial_messageId_def msg_of_def channel_fallback_def remove_message_action_def
      serverId_of_def remove_server_action_def ctxServerId_of_def
      kick_ban_actions_def userId_of_def null_entry_report_def)

section \<open>The channel id from the displayed target\<close>

text \<open>
  Claim C8: when no snapshot entry gives a channel id and \<^verbatim>\<open>target_display\<close> is
  \<^verbatim>\<open>"reported in channel:abc123"\<close>, the regular expression finds \<^verbatim>\<open>abc123\<close> and
  this is the channel id \<open>deriveActions\<close> resolves.
\<close>

theorem channel_from_target_display:
  assumes display: "get_prop report ''target_display'' = Str ''reported in channel:abc123''"
      and none: "\<forall>s\<in>set (snapshot_entries report). \<not> nullish s \<and> \<not> truthy (snap_channel_id s)"
  shows "channel_match ''reported in channel:abc123'' = Some ''abc123''
         \<and> (\<exists>messageId. resolve_ids report = Inr (Str ''abc123'', messageId))"
proof -
  have m: "channel_match ''reported in channel:abc123'' = Some ''abc123''"
    by (simp add: channel_match_at_def ascii_lower_def word_or_dash_def)
  from scan_ids_channel_kept [OF none, of Undefined "initial_messageId report"]
  obtain m' where "scan_ids (snapshot_entries report) (Undefined, initial_messageId report) = Inr (Undefined, m')"
    by blast
  then have "resolve_ids report = Inr (Str ''abc123'', m')"
    by (simp add: resolve_ids_entries channel_fallback_def display m del: channel_match.simps)
  with m show ?thesis by blast
qed

theorem channel_from_target_display_witness:
  "get_prop display_report ''target_display'' = Str ''reported in channel:abc123''
   \<and> snapshot_entries display_report = [snap_s9]
   \<and> \<not> nullish snap_s9 \<and> \<not> truthy (snap_channel_id snap_s9)
   \<and> resolve_ids display_report = Inr (Str ''abc123'', Str ''m7'')"
proof -
  have display: "get_prop display_report ''target_display'' = Str ''reported in channel:abc123''"
    by (simp add: display_report_def)
  have entries: "snapshot_entries display_report = [snap_s9]"
    by (simp add: snapshot_entries_def snapshot_of_def coalesce_def display_report_def)
  have s9: "\<not> nullish snap_s9" "\<not> truthy (snap_channel_id snap_s9)"
    by (simp_all add: snap_s9_def snap_channel_id_def)
  then have "\<forall>s\<in>set (snapshot_entries display_report).
      \<not> nullish s \<and> \<not> truthy (snap_channel_id s)"
    by (simp add: entries)
  from channel_from_target_display [OF display this]
  obtain messageId where ids: "resolve_ids display_report = Inr (Str ''abc123'', messageId)"
    by blast
  have "scan_ids [snap_s9] (Undefined, initial_messageId display_report)
          = Inr (Undefined, Str ''m7'')"
    by (simp add: dot_def snap_s9_def initial_messageId_def msg_of_def coalesce_def
        display_report_def is_string_def)
  with ids have "messageId = Str ''m7''"
    by (simp add: resolve_ids_entries entries)
  with ids display entries s9 show ?thesis by simp
qed

section \<open>Enabled actions, the Kick and Ban pair, and the two snapshot fields\<close>

lemma action_enabled_defined:
  "remove_message_action c m = Inr a \<Longrightarrow> enabled a \<longleftrightarrow> http_method a \<noteq> None \<and> path a \<noteq> None"
  "remove_server_action s = Inr a \<Longrightarrow> enabled a \<longleftrightarrow> http_method a \<noteq> None \<and> path a \<noteq> None"
  by (auto simp: remove_message_action_def remove_server_action_def disabled_action_def
      split: if_splits sum.splits)

lemma kick_ban_actions_pair:
  "kick_ban_actions u x = Inr kb \<Longrightarrow>
   \<exists>k b. kb = [k, b] \<and> enabled k = enabled b
     \<and> (enabled k \<longleftrightarrow> http_method k \<noteq> None \<and> path k \<noteq> None)
     \<and> (enabled b \<longleftrightarrow> http_method b \<noteq> None \<and> path b \<noteq> None)
     \<and> label k = ''Kick from Server'' \<and> label b = ''Ban from Server''"
  by (auto simp: kick_ban_actions_def disabled_action_def split: if_splits sum.splits)

lemma snapshot_of_singular:
  "nullish (get_prop (Obj kv) ''snapshots'') \<Longrightarrow>
   snapshot_of (Obj ((''snapshot'', v) # kv)) = v"
  by (simp add: snapshot_of_def coalesce_def)

lemma snapshot_of_plural:
  "\<not> nullish v \<Longrightarrow> snapshot_of (Obj ((''snapshots'', v) # kv)) = v"
  by (simp add: snapshot_of_def coalesce_def)

lemma get_prop_other:
  "k \<noteq> k' \<Longrightarrow> get_prop (Obj ((k', v) # kv)) k = get_prop (Obj kv) k"
  by simp

lemma deriveActions_either_field:
  assumes "nullish (get_prop (Obj kv) ''snapshots'')"
  shows "deriveActions (Obj ((''snapshot'', Arr xs) # kv)) = deriveActions (Obj ((''snapshots'', Arr xs) # kv))"
proof -
  let ?a = "Obj ((''snapshot'', Arr xs) # kv)" and ?b = "Obj ((''snapshots'', Arr xs) # kv)"
  have snap: "snapshot_of ?a = snapshot_of ?b"
    using assms by (simp add: snapshot_of_singular snapshot_of_plural)
  have init: "initial_messageId ?a = initial_messageId ?b"
    by (simp add: initial_messageId_def msg_of_def)
  have fb: "channel_fallback ?a = channel_fallback ?b"
    by (simp add: channel_fallback_def fun_eq_iff)
  have ids: "resolve_ids ?a = resolve_ids ?b"
    unfolding resolve_ids_def snap init fb ..
  have srv: "serverId_of ?a = serverId_of ?b"
    by (simp add: serverId_of_def)
  have usr: "userId_of ?a = userId_of ?b"
    by (simp add: userId_of_def)
  have ctx: "ctxServerId_of ?a = ctxServerId_of ?b"
    unfolding ctxServerId_of_def snap ..
  show ?thesis
    unfolding deriveActions_def ids srv usr ctx ..
qed

text \<open>
  Claim C10: every action \<open>deriveActions\<close> returns is enabled exactly when it has both
  a method and a path; the third and fourth actions are Kick from Server and Ban from
  Server, enabled together or disabled together; and the snapshot array is the
  \<^verbatim>\<open>snapshots\<close> field, or the \<^verbatim>\<open>snapshot\<close> field when \<^verbatim>\<open>snapshots\<close> is absent or
  \<^verbatim>\<open>null\<close>: moving the array from one field to the other changes nothing.
\<close>

theorem enabled_iff_defined:
  "(deriveActions report = Inr acts \<longrightarrow>
      (\<forall>a\<in>set acts. enabled a \<longleftrightarrow> http_method a \<noteq> None \<and> path a \<noteq> None)
      \<and> label (acts ! 2) = ''Kick from Server'' \<and> label (acts ! 3) = ''Ban from Server''
      \<and> enabled (acts ! 2) = enabled (acts ! 3))
   \<and> snapshot_of report =
       (if nullish (get_prop report ''snapshots'') then get_prop report ''snapshot''
        else get_prop report ''snapshots'')
   \<and> (nullish (get_prop (Obj kv) ''snapshots'') \<longrightarrow>
        deriveActions (Obj ((''snapshot'', Arr xs) # kv)) =
        deriveActions (Obj ((''snapshots'', Arr xs) # kv)))"
proof (intro conjI impI)
  assume "deriveActions report = Inr acts"
  from deriveActions_Inr [OF this]
  obtain c m a1 a2 x kb where a1: "remove_message_action c m = Inr a1"
    and a2: "remove_server_action (serverId_of report) = Inr a2"
    and kb: "kick_ban_actions (userId_of report) x = Inr kb"
    and acts: "acts = [a1, a2] @ kb"
    by blast
  from kick_ban_actions_pair [OF kb]
  obtain k b where pair: "kb = [k, b]" "enabled k = enabled b"
    "enabled k \<longleftrightarrow> http_method k \<noteq> None \<and> path k \<noteq> None"
    "enabled b \<longleftrightarrow> http_method b \<noteq> None \<and> path b \<noteq> None"
    "label k = ''Kick from Server''" "label b = ''Ban from Server''"
    by blast
  have list: "acts = [a1, a2, k, b]" by (simp add: acts pair)
  from action_enabled_defined(1) [OF a1] action_enabled_defined(2) [OF a2] pair
  show "\<forall>a\<in>set acts. enabled a \<longleftrightarrow> http_method a \<noteq> None \<and> path a \<noteq> None"
    by (simp add: list)
  show "label (acts ! 2) = ''Kick from Server''" by (simp add: list pair)
  show "label (acts ! 3) = ''Ban from Server''" by (simp add: list pair)
  show "enabled (acts ! 2) = enabled (acts ! 3)" by (simp add: list pair)
next
  show "snapshot_of report =
       (if nullish (get_prop report ''snapshots'') then get_prop report ''snapshot''
        else get_prop report ''snapshots'')"
    by (simp add: snapshot_of_def coalesce_def)
next
  assume "nullish (get_prop (Obj kv) ''snapshots'')"
  then show "deriveActions (Obj ((''snapshot'', Arr xs) # kv)) =
        deriveActions (Obj ((''snapshots'', Arr xs) # kv))"
    by (rule deriveActions_either_field)
qed

theorem enabled_iff_defined_witness:
  "deriveActions kick_report = Inr kick_actions
   \<and> enabled (kick_actions ! 2) \<and> enabled (kick_actions ! 3)
   \<and> http_method (kick_actions ! 3) = Some ''PUT''
   \<and> \<not> enabled (kick_actions ! 0) \<and> path (kick_actions ! 0) = None
   \<and> nullish (get_prop (Obj kick_fields) ''snapshots'')
   \<and> deriveActions (Obj ((''snapshots'', Arr [snap_mA, snap_mB]) # kick_fields)) = Inr kick_actions"
proof -
  have run: "deriveActions kick_report = Inr kick_actions"
    by (simp add: deriveActions_def resolve_ids_def snapshot_of_def coalesce_def dot_def
        initial_messageId_def msg_of_def channel_fallback_def remove_message_action_def
        serverId_of_def remove_server_action_def ctxServerId_of_def
        kick_ban_actions_def userId_of_def snap_mA_def snap_mB_def
        kick_report_def kick_fields_def kick_actions_def)
  have absent: "nullish (get_prop (Obj kick_fields) ''snapshots'')"
    by (simp add: kick_fields_def)
  from enabled_iff_defined [of kick_report kick_actions kick_fields "[snap_mA, snap_mB]"]
    run absent
  show ?thesis
    by (simp add: kick_report_def kick_actions_def disabled_action_def)
qed

section \<open>The generic action mutation\<close>

lemma upper_units_not_Nil: "upper_units c \<noteq> []"
  by (simp add: upper_units_def Let_def)

lemma toUpperCase_Nil_iff: "toUpperCase s = [] \<longleftrightarrow> s = []"
  by (cases s) (simp_all add: toUpperCase_def upper_units_not_Nil)

lemma char_eq_code: "c = char_of n \<longleftrightarrow> (of_char c :: nat) = n mod 256"
proof
  assume "c = char_of n" then show "(of_char c :: nat) = n mod 256" by simp
next
  assume "(of_char c :: nat) = n mod 256"
  then have "char_of (of_char c :: nat) = char_of (n mod 256)" by simp
  then show "c = char_of n" by (simp add: char_of_eq_iff)
qed

lemma of_char_ascii_lower:
  "(of_char (ascii_lower c) :: nat) =
     (if (65::nat) \<le> of_char c \<and> of_char c \<le> (90::nat) then of_char c + 32 else of_char c)"
  by (simp add: ascii_lower_def)

lemma ascii_lower_code:
  "ascii_lower c = char_of u \<longleftrightarrow>
     (if (65::nat) \<le> of_char c \<and> of_char c \<le> (90::nat) then of_char c + 32 = u mod 256
      else (of_char c :: nat) = u mod 256)"
  unfolding char_eq_code of_char_ascii_lower by simp

lemma upper_units_letter:
  assumes "65 \<le> u" "u \<le> 90"
  shows "upper_units c @ r = u # us \<longleftrightarrow>
           (ascii_lower c = char_of (u + 32) \<and> r = us)
           \<or> (u = 83 \<and> of_char c = (223::nat) \<and> us = 83 # r)"
proof -
  have lt: "(of_char c :: nat) < 256" by simp
  show ?thesis
    using assms lt
    apply (simp add: ascii_lower_code upper_units_def Let_def)
    apply (auto simp: mod_if)
    done
qed


lemma toUpperCase_Cons: "toUpperCase (c # cs) = upper_units c @ toUpperCase cs"
  by (simp add: toUpperCase_def)

lemma ascii_lower_upper_letter:
  assumes "(65::nat) \<le> of_char U" "of_char U \<le> (90::nat)"
  shows "ascii_lower U = char_of (of_char U + (32::nat))"
  using assms by (simp add: ascii_lower_def)

lemma toUpperCase_letter:
  assumes "(65::nat) \<le> of_char U" "of_char U \<le> (90::nat)"
  shows "toUpperCase s = of_char U # us \<longleftrightarrow>
           (\<exists>c cs. s = c # cs
              \<and> ((ascii_lower c = ascii_lower U \<and> toUpperCase cs = us)
                  \<or> (U = CHR ''S'' \<and> of_char c = (223::nat) \<and> us = 83 # toUpperCase cs)))"
proof (cases s)
  case Nil
  then show ?thesis by (simp add: toUpperCase_def)
next
  case (Cons c cs)
  have S: "(of_char U :: nat) = 83 \<longleftrightarrow> U = CHR ''S''"
  proof -
    have "(of_char U :: nat) = of_char CHR ''S'' \<longleftrightarrow> U = CHR ''S''"
      by (rule of_char_eq_iff)
    then show ?thesis by simp
  qed
  from upper_units_letter [OF assms, of c "toUpperCase cs" us]
  show ?thesis
    unfolding Cons toUpperCase_Cons ascii_lower_upper_letter [OF assms] S by simp
qed

lemma upper_literal_Cons:
  "upper_literal (U # rest) \<Longrightarrow>
     (65::nat) \<le> of_char U \<and> of_char U \<le> (90::nat) \<and> upper_literal rest
     \<and> \<not> (U = CHR ''S'' \<and> (\<exists>r. rest = CHR ''S'' # r))"
  by (cases rest) (auto simp: upper_literal_def)

lemma units_Cons_S: "units rest = 83 # r \<Longrightarrow> \<exists>r'. rest = CHR ''S'' # r'"
proof (cases rest)
  case Nil
  assume "units rest = 83 # r"
  with Nil show ?thesis by (simp add: units_def)
next
  case (Cons d ds)
  assume "units rest = 83 # r"
  with Cons have "(of_char d :: nat) = of_char CHR ''S''" by (simp add: units_def)
  then have "d = CHR ''S''" by (simp only: of_char_eq_iff)
  with Cons show ?thesis by simp
qed

lemma toUpperCase_eq_units:
  "upper_literal lit \<Longrightarrow>
   toUpperCase m = units lit \<longleftrightarrow> map ascii_lower m = map ascii_lower lit"
proof (induction lit arbitrary: m)
  case Nil
  then show ?case by (simp add: units_def toUpperCase_Nil_iff)
next
  case (Cons U rest)
  from upper_literal_Cons [OF Cons.prems]
  have lo: "(65::nat) \<le> of_char U" and hi: "of_char U \<le> (90::nat)"
    and rest: "upper_literal rest"
    and noSS: "\<not> (U = CHR ''S'' \<and> (\<exists>r. rest = CHR ''S'' # r))"
    by simp_all
  have u: "units (U # rest) = of_char U # units rest" by (simp add: units_def)
  show ?case
  proof (cases m)
    case Nil
    then show ?thesis by (simp add: u toUpperCase_def)
  next
    case (Cons c cs)
    have sharp: "\<not> (U = CHR ''S'' \<and> of_char c = (223::nat) \<and> units rest = 83 # toUpperCase cs)"
      using noSS units_Cons_S [of rest "toUpperCase cs"] by blast
    have "toUpperCase m = units (U # rest) \<longleftrightarrow>
            ascii_lower c = ascii_lower U \<and> toUpperCase cs = units rest"
      unfolding u toUpperCase_letter [OF lo hi] using sharp Cons by auto
    also have "\<dots> \<longleftrightarrow> ascii_lower c = ascii_lower U \<and> map ascii_lower cs = map ascii_lower rest"
      using Cons.IH [OF rest, of cs] by simp
    also have "\<dots> \<longleftrightarrow> map ascii_lower m = map ascii_lower (U # rest)"
      using Cons by simp
    finally show ?thesis .
  qed
qed

lemma upper_literals:
  "upper_literal ''DELETE''" "upper_literal ''PUT''" "upper_literal ''POST''"
  by (simp_all add: upper_literal_def)

text \<open>
  Claim C5: the mutation compares the method ignoring case. For DELETE it performs a
  delete of the path; for PUT and POST it performs the call with the body, or with
  \<^verbatim>\<open>{}\<close> when the body is absent or \<^verbatim>\<open>null\<close>; for every other method it performs no
  request and throws \<^verbatim>\<open>Error("Unsupported method")\<close>.
\<close>

theorem actionMutation_dispatch:
  "actionMutation client m p b =
     (if same_ignoring_case m ''DELETE'' then ([DELETE p], client (DELETE p))
      else if same_ignoring_case m ''PUT'' then
        ([PUT p (if nullish b then Obj [] else b)],
         client (PUT p (if nullish b then Obj [] else b)))
      else if same_ignoring_case m ''POST'' then
        ([POST p (if nullish b then Obj [] else b)],
         client (POST p (if nullish b then Obj [] else b)))
      else ([], Inl (Error ''Unsupported method'')))"
  unfolding actionMutation_def Let_def coalesce_def
    toUpperCase_eq_units [OF upper_literals(1)]
    toUpperCase_eq_units [OF upper_literals(2)]
    toUpperCase_eq_units [OF upper_literals(3)]
    same_ignoring_case_def
  by (rule refl)

lemma same_ignoring_case_examples:
  "same_ignoring_case ''delete'' ''DELETE''"
  "same_ignoring_case ''Put'' ''PUT''"
  "\<not> same_ignoring_case ''Put'' ''DELETE''"
  "\<not> same_ignoring_case ''patch'' ''DELETE''"
  "\<not> same_ignoring_case ''patch'' ''PUT''"
  "\<not> same_ignoring_case ''patch'' ''POST''"
  by (simp_all add: same_ignoring_case_def ascii_lower_def char_eq_code)

theorem actionMutation_dispatch_witness:
  "actionMutation ok_client ''delete'' ''/servers/s1'' Undefined
     = ([DELETE ''/servers/s1''], Inr (Obj []))
   \<and> actionMutation failing_client ''Put'' ''/servers/s1/bans/u1'' Undefined
     = ([PUT ''/servers/s1/bans/u1'' (Obj [])], Inl (Error ''Network error''))
   \<and> actionMutation ok_client ''patch'' ''/servers/s1'' Undefined
     = ([], Inl (Error ''Unsupported method''))"
  using actionMutation_dispatch [of ok_client "''delete''" "''/servers/s1''" Undefined]
    actionMutation_dispatch [of failing_client "''Put''" "''/servers/s1/bans/u1''" Undefined]
    actionMutation_dispatch [of ok_client "''patch''" "''/servers/s1''" Undefined]
  by (simp add: same_ignoring_case_examples ok_client_def failing_client_def)

section \<open>The strike flow\<close>

text \<open>
  Claim C6: the target user id is \<^verbatim>\<open>content.User.id\<close> unless that is absent or
  \<^verbatim>\<open>null\<close>, and \<^verbatim>\<open>target_id\<close> then. When this id is falsy the flow shows exactly one
  error notification, "No user id found for this report", and performs no request.
  When it is truthy the flow first posts \<^verbatim>\<open>{user_id, reason}\<close> to \<^verbatim>\<open>/safety/strikes\<close>,
  and performs no other request.
\<close>

theorem strike_flow:
  "strike_userId report =
     (if nullish (get_prop (get_prop (get_prop report ''content'') ''User'') ''id'')
      then get_prop report ''target_id''
      else get_prop (get_prop (get_prop report ''content'') ''User'') ''id'')
   \<and> (\<not> truthy (strike_userId report) \<longrightarrow>
         issueStrikeFor client reason report
           = [ShowError (Error ''No user id found for this report'')]
         \<and> filter is_request (issueStrikeFor client reason report) = []
         \<and> length (filter is_error_notification (issueStrikeFor client reason report)) = 1)
   \<and> (truthy (strike_userId report) \<longrightarrow>
         (\<exists>rest. issueStrikeFor client reason report
             = Request (POST ''/safety/strikes''
                 (Obj [(''user_id'', strike_userId report), (''reason'', Str reason)])) # rest
           \<and> filter is_request rest = []))"
proof (intro conjI impI)
  show "strike_userId report =
     (if nullish (get_prop (get_prop (get_prop report ''content'') ''User'') ''id'')
      then get_prop report ''target_id''
      else get_prop (get_prop (get_prop report ''content'') ''User'') ''id'')"
    by (simp add: strike_userId_def coalesce_def)
next
  assume none: "\<not> truthy (strike_userId report)"
  then show aborted: "issueStrikeFor client reason report
      = [ShowError (Error ''No user id found for this report'')]"
    by (simp add: issueStrikeFor_def)
  show "filter is_request (issueStrikeFor client reason report) = []"
    by (simp add: aborted is_request_def)
  show "length (filter is_error_notification (issueStrikeFor client reason report)) = 1"
    by (simp add: aborted is_error_notification_def)
next
  assume some: "truthy (strike_userId report)"
  let ?data = "Obj [(''user_id'', strike_userId report), (''reason'', Str reason)]"
  show "\<exists>rest. issueStrikeFor client reason report = Request (POST ''/safety/strikes'' ?data) # rest
           \<and> filter is_request rest = []"
  proof (cases "client (POST ''/safety/strikes'' ?data)")
    case (Inl e)
    with some have "issueStrikeFor client reason report
        = [Request (POST ''/safety/strikes'' ?data), ShowError e]"
      by (simp add: issueStrikeFor_def strikeMutation_def)
    then show ?thesis by (simp add: is_request_def)
  next
    case (Inr res)
    with some have "issueStrikeFor client reason report
        = [Request (POST ''/safety/strikes'' ?data), ShowSuccess ''Strike issued'',
           RefetchReports, RefetchStrikes]"
      by (simp add: issueStrikeFor_def strikeMutation_def)
    then show ?thesis by (simp add: is_request_def)
  qed
qed

theorem strike_flow_witness:
  "\<not> truthy (strike_userId (Obj [(''content'', Obj [(''Message'', Obj [(''id'', Str ''m1'')])])]))
   \<and> issueStrikeFor ok_client ''spam''
        (Obj [(''content'', Obj [(''Message'', Obj [(''id'', Str ''m1'')])])])
       = [ShowError (Error ''No user id found for this report'')]
   \<and> strike_userId (Obj [(''content'', Obj [(''User'', Obj [(''id'', Str ''u1'')])]),
                          (''target_id'', Str ''t1'')]) = Str ''u1''
   \<and> strike_userId (Obj [(''target_id'', Str ''t1'')]) = Str ''t1''
   \<and> truthy (strike_userId (Obj [(''target_id'', Str ''t1'')]))
   \<and> (\<exists>rest. issueStrikeFor ok_client ''spam'' (Obj [(''target_id'', Str ''t1'')])
         = Request (POST ''/safety/strikes''
              (Obj [(''user_id'', Str ''t1''), (''reason'', Str ''spam'')])) # rest
         \<and> filter is_request rest = [])"
proof -
  let ?none = "Obj [(''content'', Obj [(''Message'', Obj [(''id'', Str ''m1'')])])]"
  let ?user = "Obj [(''content'', Obj [(''User'', Obj [(''id'', Str ''u1'')])]),
                    (''target_id'', Str ''t1'')]"
  let ?target = "Obj [(''target_id'', Str ''t1'')]"
  have a: "\<not> truthy (strike_userId ?none)"
    by (simp add: strike_userId_def coalesce_def)
  have b: "strike_userId ?user = Str ''u1''" "strike_userId ?target = Str ''t1''"
    by (simp_all add: strike_userId_def coalesce_def)
  from strike_flow [of ?none ok_client "''spam''"] strike_flow [of ?target ok_client "''spam''"] a b
  show ?thesis by simp
qed

section \<open>The two queries\<close>

text \<open>
  Claim C7 as the code has it: each query performs its one GET and always resolves,
  never rejects. It resolves to the empty list when the fetch throws and when the
  response is \<^verbatim>\<open>null\<close> or \<^verbatim>\<open>undefined\<close>, and to the response itself otherwise: to a
  list whenever the backend answers with a list.
\<close>

theorem queries_resolve:
  "fst (reportsQuery client) = [GET ''/safety/reports'']
   \<and> fst (strikesQuery client) = [GET ''/safety/strikes'']
   \<and> (\<exists>v. snd (reportsQuery client) = Inr v)
   \<and> (\<exists>v. snd (strikesQuery client) = Inr v)
   \<and> (client (GET ''/safety/reports'') = Inl e \<longrightarrow> snd (reportsQuery client) = Inr (Arr []))
   \<and> (client (GET ''/safety/strikes'') = Inl e \<longrightarrow> snd (strikesQuery client) = Inr (Arr []))
   \<and> (client (GET ''/safety/reports'') = Inr res \<longrightarrow>
        snd (reportsQuery client) = Inr (if nullish res then Arr [] else res))
   \<and> (client (GET ''/safety/strikes'') = Inr res \<longrightarrow>
        snd (strikesQuery client) = Inr (if nullish res then Arr [] else res))
   \<and> (client (GET ''/safety/reports'') = Inr (Arr xs) \<longrightarrow> snd (reportsQuery client) = Inr (Arr xs))
   \<and> (client (GET ''/safety/strikes'') = Inr (Arr xs) \<longrightarrow> snd (strikesQuery client) = Inr (Arr xs))"
  by (simp add: reportsQuery_def strikesQuery_def coalesce_def split: sum.splits)

theorem queries_resolve_witness:
  "snd (reportsQuery failing_client) = Inr (Arr [])
   \<and> snd (strikesQuery failing_client) = Inr (Arr [])
   \<and> snd (reportsQuery null_client) = Inr (Arr [])
   \<and> snd (strikesQuery null_client) = Inr (Arr [])
   \<and> snd (reportsQuery list_client) = Inr (Arr [Obj [(''id'', Str ''r1'')]])
   \<and> snd (strikesQuery list_client) = Inr (Arr [Obj [(''id'', Str ''r1'')]])"
  using queries_resolve [of failing_client "Error ''Network error''"]
    queries_resolve [of null_client _ Null]
    queries_resolve [of list_client _ _ "[Obj [(''id'', Str ''r1'')]]"]
  by (simp add: failing_client_def null_client_def list_client_def)

text \<open>
  Claim C7 as stated fails when the backend answers with something that is not a list:
  the cast \<^verbatim>\<open>as Report[]\<close> checks nothing, and the query resolves to that value.
\<close>

theorem queries_list_counterexample:
  "snd (reportsQuery object_client) = Inr (Obj [(''type'', Str ''NotFound'')])
   \<and> snd (strikesQuery object_client) = Inr (Obj [(''type'', Str ''NotFound'')])
   \<and> \<not> isArray (Obj [(''type'', Str ''NotFound'')])"
  by (simp add: reportsQuery_def strikesQuery_def coalesce_def object_client_def isArray_def)

section \<open>One expanded report at a time\<close>

lemma showsJSON_at_most_one:
  "distinct ids \<Longrightarrow> length (filter (showsJSON st) ids) \<le> 1"
proof (induction ids)
  case Nil
  then show ?case by simp
next
  case (Cons i ids)
  show ?case
  proof (cases "showsJSON st i")
    case True
    with Cons.prems have "\<forall>j\<in>set ids. \<not> showsJSON st j"
      by (auto simp: showsJSON_def)
    then have "filter (showsJSON st) ids = []"
      by (simp add: filter_empty_conv)
    with True show ?thesis by simp
  next
    case False
    with Cons show ?thesis by simp
  qed
qed

text \<open>
  Claim C9: a click on the expanded report resets the state to \<^verbatim>\<open>null\<close>; a click on
  report B while report A is expanded replaces A's id with B's, so that A's JSON is no
  longer shown and B's is; and after any sequence of clicks, among reports with
  distinct ids at most one has its JSON shown.
\<close>

theorem expanded_single:
  "toggleExpanded (Some a) a = None
   \<and> toggleExpanded None b = Some b
   \<and> (a \<noteq> b \<longrightarrow> toggleExpanded (Some a) b = Some b
         \<and> \<not> showsJSON (toggleExpanded (Some a) b) a
         \<and> showsJSON (toggleExpanded (Some a) b) b)
   \<and> (distinct ids \<longrightarrow> length (filter (showsJSON (expanded_after clicks)) ids) \<le> 1)"
proof (intro conjI impI)
  assume "distinct ids"
  then show "length (filter (showsJSON (expanded_after clicks)) ids) \<le> 1"
    by (rule showsJSON_at_most_one)
qed (simp_all add: toggleExpanded_def showsJSON_def)

theorem expanded_single_witness:
  "expanded_after [''A''] = Some ''A''
   \<and> expanded_after [''A'', ''B''] = Some ''B''
   \<and> \<not> showsJSON (expanded_after [''A'', ''B'']) ''A''
   \<and> expanded_after [''A'', ''B'', ''B''] = None
   \<and> filter (showsJSON (expanded_after [''A'', ''B''])) [''A'', ''B'', ''C''] = [''B'']"
proof -
  have "distinct [''A'', ''B'', ''C'']" by simp
  with expanded_single [of "''A''" "''B''" "[''A'', ''B'', ''C'']" "[''A'', ''B'']"]
  show ?thesis by (simp add: expanded_after_def toggleExpanded_def showsJSON_def)
qed

end
